theory Spec2Isabelle
  imports Complex_Main
begin

section \<open>Numbers\<close>

text \<open>
  A JavaScript number is an IEEE 754 double: a finite value, one of the two infinities, or
  \<open>NaN\<close>. A finite value is carried as the rational it denotes; \<open>-0\<close> is \<open>0\<close>.
\<close>

datatype jsnumber = Finite rat | PosInfinity | NegInfinity | NaN

text \<open>\<open>MaybeNumericInput = number | string | undefined | null\<close> (number/types.ts).\<close>

datatype MaybeNumericInput = NumberIn jsnumber | StringIn string | Undefined | Null

text \<open>
  The thrown \<open>Error\<close> objects, told apart by their message: \<open>Invalid input: ... received X\<close>,
  \<open>Invalid unit: X\<close>, \<open>Invalid from suffix: X\<close>, \<open>Invalid to suffix: X\<close>,
  \<open>Unknown optimizer: X\<close>. A suffix that is \<open>undefined\<close> is \<open>None\<close>.
\<close>

datatype error =
    InvalidInput string
  | InvalidUnit string
  | InvalidFromSuffix "string option"
  | InvalidToSuffix "string option"
  | UnknownOptimizer string

text \<open>
  \<open>Number(input)\<close>: a number is itself, \<open>null\<close> is \<open>0\<close>, \<open>undefined\<close> is \<open>NaN\<close>; the
  conversion of a string (ECMAScript StringToNumber) is the parameter \<open>strToNum\<close>.
\<close>

fun Number :: "(string \<Rightarrow> jsnumber) \<Rightarrow> MaybeNumericInput \<Rightarrow> jsnumber" where
  "Number strToNum (NumberIn n) = n"
| "Number strToNum (StringIn s) = strToNum s"
| "Number strToNum Undefined = NaN"
| "Number strToNum Null = Finite 0"

text \<open>\<open>typeof input\<close>; \<open>typeof null\<close> is \<open>"object"\<close>.\<close>

fun typeof :: "MaybeNumericInput \<Rightarrow> string" where
  "typeof (NumberIn n) = ''number''"
| "typeof (StringIn s) = ''string''"
| "typeof Undefined = ''undefined''"
| "typeof Null = ''object''"

text \<open>checkMaybeNumericInput (number/checkMaybeNumericInput.ts): returns nothing or throws.\<close>

definition checkMaybeNumericInput ::
  "(string \<Rightarrow> jsnumber) \<Rightarrow> MaybeNumericInput \<Rightarrow> error + unit" where
  "checkMaybeNumericInput strToNum input =
     (if typeof input \<noteq> ''string'' \<and> typeof input \<noteq> ''number''
      then Inl (InvalidInput (typeof input))
      else let value = Number strToNum input
           in if value = NaN then Inl (InvalidInput ''NaN'') else Inr ())"

subsection \<open>Exact built-ins\<close>

text \<open>The exact power \<open>10 ^ e\<close> for an integer exponent.\<close>

definition pow10 :: "int \<Rightarrow> rat" where
  "pow10 e = (if 0 \<le> e then 10 ^ nat e else 1 / 10 ^ nat (- e))"

text \<open>\<open>Math.round\<close>: the nearest integer, a tie going up.\<close>

definition Math_round :: "rat \<Rightarrow> int" where
  "Math_round x = \<lfloor>x + 1 / 2\<rfloor>"

text \<open>
  \<open>x.toFixed(8)\<close>: the decimal with eight fractional digits nearest to \<open>x\<close>, a tie going
  away from zero (the sign is split off first); from \<open>1e21\<close> on \<open>toFixed\<close> prints the
  number itself.
\<close>

definition toFixed8 :: "rat \<Rightarrow> rat" where
  "toFixed8 x =
     (if 10 ^ 21 \<le> \<bar>x\<bar> then x
      else if x < 0 then - (of_int \<lfloor>(- x) * 10 ^ 8 + 1 / 2\<rfloor> / 10 ^ 8)
      else of_int \<lfloor>x * 10 ^ 8 + 1 / 2\<rfloor> / 10 ^ 8)"

subsection \<open>The exact logarithm\<close>

text \<open>
  The integer just below the exact \<open>log10 v\<close>: for \<open>v \<ge> 1\<close> it is the number of times \<open>v\<close> can be divided
  by ten before it drops below ten; for \<open>0 < v < 1\<close> its negation is the number of times
  \<open>v\<close> must be multiplied by ten to reach one.
\<close>

function log10_floor_ge1 :: "rat \<Rightarrow> nat" where
  "log10_floor_ge1 v = (if v < 10 then 0 else Suc (log10_floor_ge1 (v / 10)))"
  by pat_completeness auto
termination
proof (relation "measure (\<lambda>v. nat \<lfloor>v\<rfloor>)")
  show "wf (measure (\<lambda>v::rat. nat \<lfloor>v\<rfloor>))" by simp
next
  fix v :: rat
  assume "\<not> v < 10"
  then have v: "10 \<le> v" by simp
  have "of_int \<lfloor>v / 10\<rfloor> \<le> v / 10" by (rule of_int_floor_le)
  then have "of_int (\<lfloor>v / 10\<rfloor> + 1) \<le> v" using v by simp
  then have "\<lfloor>v / 10\<rfloor> + 1 \<le> \<lfloor>v\<rfloor>" by (simp only: le_floor_iff)
  moreover have "0 \<le> \<lfloor>v / 10\<rfloor>" using v by simp
  ultimately have "nat \<lfloor>v / 10\<rfloor> < nat \<lfloor>v\<rfloor>" by linarith
  then show "(v / 10, v) \<in> measure (\<lambda>v. nat \<lfloor>v\<rfloor>)"
    by (simp only: in_measure)
qed

function neg_log10_floor_lt1 :: "rat \<Rightarrow> nat" where
  "neg_log10_floor_lt1 v =
     (if v \<le> 0 \<or> 1 \<le> v then 0 else Suc (neg_log10_floor_lt1 (v * 10)))"
  by pat_completeness auto
termination
proof (relation "measure (\<lambda>v. nat \<lfloor>1 / v\<rfloor>)")
  show "wf (measure (\<lambda>v::rat. nat \<lfloor>1 / v\<rfloor>))" by simp
next
  fix v :: rat
  assume "\<not> (v \<le> 0 \<or> 1 \<le> v)"
  then have v: "0 < v" "v < 1" by simp_all
  define x where "x = 1 / v"
  have x: "1 < x" using v by (simp add: x_def)
  have eq: "1 / (v * 10) = x / 10" by (simp add: x_def)
  have "\<lfloor>x / 10\<rfloor> + 1 \<le> \<lfloor>x\<rfloor>"
  proof (cases "x < 10")
    case True
    then have "\<lfloor>x / 10\<rfloor> = 0" using x by (simp add: floor_eq_iff)
    moreover have "1 \<le> \<lfloor>x\<rfloor>" using x by (simp add: le_floor_iff)
    ultimately show ?thesis by simp
  next
    case False
    have "of_int \<lfloor>x / 10\<rfloor> \<le> x / 10" by (rule of_int_floor_le)
    then have "of_int (\<lfloor>x / 10\<rfloor> + 1) \<le> x" using False by simp
    then show ?thesis by (simp only: le_floor_iff)
  qed
  moreover have "0 \<le> \<lfloor>x / 10\<rfloor>" using x by simp
  ultimately have "nat \<lfloor>x / 10\<rfloor> < nat \<lfloor>x\<rfloor>" by linarith
  then show "(v * 10, v) \<in> measure (\<lambda>v. nat \<lfloor>1 / v\<rfloor>)"
    by (simp only: in_measure eq x_def)
qed

text \<open>The two recursions are unfolded by hand only.\<close>

declare log10_floor_ge1.simps [simp del]
declare neg_log10_floor_lt1.simps [simp del]

section \<open>Binary64 arithmetic\<close>

text \<open>
  The finite numbers of JavaScript are the binary64 doubles: zero, the normal numbers
  \<open>m * 2 ^ (e - 52)\<close> with \<open>2 ^ 52 \<le> |m| < 2 ^ 53\<close> and \<open>-1022 \<le> e \<le> 1023\<close>, and the
  subnormal numbers \<open>m * 2 ^ -1074\<close> with \<open>|m| < 2 ^ 52\<close>. A \<open>Finite\<close> value of the
  rounding engine stands for such a number, \<open>-0\<close> being \<open>0\<close>. An arithmetic operation
  returns the double nearest to the exact result, a tie going to the even \<open>m\<close>, and an
  infinity once the rounded magnitude reaches \<open>2 ^ 1024\<close> (IEEE 754, round to nearest,
  ties to even).
\<close>

definition pow2 :: "int \<Rightarrow> rat" where
  "pow2 e = (if 0 \<le> e then 2 ^ nat e else 1 / 2 ^ nat (- e))"

text \<open>
  The binade of a positive rational \<open>a\<close>, the integer \<open>e\<close> with
  \<open>2 ^ e \<le> a < 2 ^ (e + 1)\<close>: the number of halvings that bring \<open>a \<ge> 1\<close> below two, or
  minus the number of doublings that bring \<open>a < 1\<close> up to one.
\<close>

function halvings :: "rat \<Rightarrow> nat" where
  "halvings v = (if v < 2 then 0 else Suc (halvings (v / 2)))"
  by pat_completeness auto
termination
proof (relation "measure (\<lambda>v. nat \<lfloor>v\<rfloor>)")
  show "wf (measure (\<lambda>v::rat. nat \<lfloor>v\<rfloor>))" by simp
next
  fix v :: rat
  assume "\<not> v < 2"
  then have v: "2 \<le> v" by simp
  have "of_int \<lfloor>v / 2\<rfloor> \<le> v / 2" by (rule of_int_floor_le)
  then have "of_int (\<lfloor>v / 2\<rfloor> + 1) \<le> v" using v by simp
  then have "\<lfloor>v / 2\<rfloor> + 1 \<le> \<lfloor>v\<rfloor>" by (simp only: le_floor_iff)
  moreover have "0 \<le> \<lfloor>v / 2\<rfloor>" using v by simp
  ultimately have "nat \<lfloor>v / 2\<rfloor> < nat \<lfloor>v\<rfloor>" by linarith
  then show "(v / 2, v) \<in> measure (\<lambda>v. nat \<lfloor>v\<rfloor>)"
    by (simp only: in_measure)
qed

function doublings :: "rat \<Rightarrow> nat" where
  "doublings v = (if v \<le> 0 \<or> 1 \<le> v then 0 else Suc (doublings (v * 2)))"
  by pat_completeness auto
termination
proof (relation "measure (\<lambda>v. nat \<lfloor>1 / v\<rfloor>)")
  show "wf (measure (\<lambda>v::rat. nat \<lfloor>1 / v\<rfloor>))" by simp
next
  fix v :: rat
  assume "\<not> (v \<le> 0 \<or> 1 \<le> v)"
  then have v: "0 < v" "v < 1" by simp_all
  define x where "x = 1 / v"
  have x: "1 < x" using v by (simp add: x_def)
  have eq: "1 / (v * 2) = x / 2" by (simp add: x_def)
  have "\<lfloor>x / 2\<rfloor> + 1 \<le> \<lfloor>x\<rfloor>"
  proof (cases "x < 2")
    case True
    then have "\<lfloor>x / 2\<rfloor> = 0" using x by (simp add: floor_eq_iff)
    moreover have "1 \<le> \<lfloor>x\<rfloor>" using x by (simp add: le_floor_iff)
    ultimately show ?thesis by simp
  next
    case False
    have "of_int \<lfloor>x / 2\<rfloor> \<le> x / 2" by (rule of_int_floor_le)
    then have "of_int (\<lfloor>x / 2\<rfloor> + 1) \<le> x" using False by simp
    then show ?thesis by (simp only: le_floor_iff)
  qed
  moreover have "0 \<le> \<lfloor>x / 2\<rfloor>" using x by simp
  ultimately have "nat \<lfloor>x / 2\<rfloor> < nat \<lfloor>x\<rfloor>" by linarith
  then show "(v * 2, v) \<in> measure (\<lambda>v. nat \<lfloor>1 / v\<rfloor>)"
    by (simp only: in_measure eq x_def)
qed

declare halvings.simps [simp del]
declare doublings.simps [simp del]

definition binade :: "rat \<Rightarrow> int" where
  "binade a = (if 1 \<le> a then int (halvings a) else - int (doublings a))"

text \<open>The integer nearest to a rational, a tie going to the even one.\<close>

definition roundHalfEven :: "rat \<Rightarrow> int" where
  "roundHalfEven r =
     (let n = \<lfloor>r\<rfloor>;
          d = r - of_int n
      in if d < 1 / 2 then n
         else if 1 / 2 < d then n + 1
         else if n mod 2 = 0 then n else n + 1)"

text \<open>
  The double nearest to a rational. The spacing of the doubles around a magnitude \<open>a\<close> is
  \<open>2 ^ (e - 52)\<close>, \<open>e\<close> being the binade of \<open>a\<close> and at least \<open>-1022\<close>; \<open>a\<close> is rounded to
  \<open>m\<close> spacings. The result \<open>m * 2 ^ (e - 52)\<close> reaches \<open>2 ^ 1024\<close>, and overflows, when the
  binade is above \<open>1023\<close> or when it is \<open>1023\<close> and \<open>m\<close> has been rounded up to \<open>2 ^ 53\<close>.
\<close>

definition toDouble :: "rat \<Rightarrow> jsnumber" where
  "toDouble x =
     (if x = 0 then Finite 0
      else let a = \<bar>x\<bar>;
               e = max (binade a) (- 1022);
               q = pow2 (e - 52);
               m = roundHalfEven (a / q);
               y = of_int m * q
           in if 1023 < e \<or> (e = 1023 \<and> 2 ^ 53 \<le> m)
              then (if x < 0 then NegInfinity else PosInfinity)
              else Finite (if x < 0 then - y else y))"

subsection \<open>Operators and built-ins on numbers\<close>

text \<open>Unary minus and \<open>Math.abs\<close> are exact.\<close>

fun js_neg :: "jsnumber \<Rightarrow> jsnumber" where
  "js_neg (Finite x) = Finite (- x)"
| "js_neg PosInfinity = NegInfinity"
| "js_neg NegInfinity = PosInfinity"
| "js_neg NaN = NaN"

fun js_abs :: "jsnumber \<Rightarrow> jsnumber" where
  "js_abs (Finite x) = Finite \<bar>x\<bar>"
| "js_abs PosInfinity = PosInfinity"
| "js_abs NegInfinity = PosInfinity"
| "js_abs NaN = NaN"

text \<open>\<open>a < b\<close>: false as soon as one side is \<open>NaN\<close>.\<close>

fun js_less :: "jsnumber \<Rightarrow> jsnumber \<Rightarrow> bool" where
  "js_less (Finite x) (Finite y) \<longleftrightarrow> x < y"
| "js_less (Finite x) PosInfinity \<longleftrightarrow> True"
| "js_less NegInfinity (Finite y) \<longleftrightarrow> True"
| "js_less NegInfinity PosInfinity \<longleftrightarrow> True"
| "js_less a b \<longleftrightarrow> False"

text \<open>The sign of a number other than \<open>NaN\<close>, for the products and quotients of infinities.\<close>

fun js_sign :: "jsnumber \<Rightarrow> int" where
  "js_sign (Finite x) = (if x = 0 then 0 else if 0 < x then 1 else - 1)"
| "js_sign PosInfinity = 1"
| "js_sign NegInfinity = - 1"
| "js_sign NaN = 0"

text \<open>\<open>a * b\<close>: an infinity times zero is \<open>NaN\<close>.\<close>

fun js_times :: "jsnumber \<Rightarrow> jsnumber \<Rightarrow> jsnumber" where
  "js_times (Finite x) (Finite y) = toDouble (x * y)"
| "js_times NaN b = NaN"
| "js_times a NaN = NaN"
| "js_times a b =
     (if js_sign a * js_sign b = 0 then NaN
      else if 0 < js_sign a * js_sign b then PosInfinity else NegInfinity)"

text \<open>
  \<open>a / b\<close>: zero by zero and infinity by infinity are \<open>NaN\<close>, a non-zero number by zero is
  an infinity, a finite number by an infinity is zero. The zero of the model is \<open>+0\<close>.
\<close>

fun js_divide :: "jsnumber \<Rightarrow> jsnumber \<Rightarrow> jsnumber" where
  "js_divide (Finite x) (Finite y) =
     (if y = 0 then (if x = 0 then NaN else if 0 < x then PosInfinity else NegInfinity)
      else toDouble (x / y))"
| "js_divide NaN b = NaN"
| "js_divide a NaN = NaN"
| "js_divide (Finite x) b = Finite 0"
| "js_divide a (Finite y) = (if 0 \<le> y then a else js_neg a)"
| "js_divide a b = NaN"

text \<open>\<open>a + b\<close> and \<open>a - b\<close>: the sum of the two infinities is \<open>NaN\<close>.\<close>

fun js_plus :: "jsnumber \<Rightarrow> jsnumber \<Rightarrow> jsnumber" where
  "js_plus (Finite x) (Finite y) = toDouble (x + y)"
| "js_plus NaN b = NaN"
| "js_plus a NaN = NaN"
| "js_plus (Finite x) b = b"
| "js_plus a (Finite y) = a"
| "js_plus a b = (if a = b then a else NaN)"

definition js_minus :: "jsnumber \<Rightarrow> jsnumber \<Rightarrow> jsnumber" where
  "js_minus a b = js_plus a (js_neg b)"

text \<open>
  \<open>Math.floor\<close> and \<open>Math.round\<close> are exact on a double and keep an infinity and \<open>NaN\<close>;
  \<open>Math.max\<close> of two numbers is \<open>NaN\<close> as soon as one of them is.
\<close>

fun js_floor :: "jsnumber \<Rightarrow> jsnumber" where
  "js_floor (Finite x) = Finite (of_int \<lfloor>x\<rfloor>)"
| "js_floor a = a"

fun js_round :: "jsnumber \<Rightarrow> jsnumber" where
  "js_round (Finite x) = Finite (of_int (Math_round x))"
| "js_round a = a"

fun js_max :: "jsnumber \<Rightarrow> jsnumber \<Rightarrow> jsnumber" where
  "js_max NaN b = NaN"
| "js_max a NaN = NaN"
| "js_max a b = (if js_less a b then b else a)"

text \<open>
  \<open>+a.toFixed(8)\<close>: \<open>toFixed\<close> prints the decimal \<open>toFixed8\<close> of a finite number, or the
  number itself from \<open>1e21\<close> on, and \<open>"Infinity"\<close>, \<open>"-Infinity"\<close>, \<open>"NaN"\<close>; the unary plus
  reads the string back as the nearest double.
\<close>

fun js_toFixed8 :: "jsnumber \<Rightarrow> jsnumber" where
  "js_toFixed8 (Finite x) = (if 10 ^ 21 \<le> \<bar>x\<bar> then Finite x else toDouble (toFixed8 x))"
| "js_toFixed8 a = a"

text \<open>A number as a condition: zero and \<open>NaN\<close> are falsy.\<close>

fun js_truthy :: "jsnumber \<Rightarrow> bool" where
  "js_truthy (Finite x) \<longleftrightarrow> x \<noteq> 0"
| "js_truthy NaN \<longleftrightarrow> False"
| "js_truthy a \<longleftrightarrow> True"

text \<open>\<open>a % 2 === 0\<close>: the remainder of an infinity is \<open>NaN\<close>.\<close>

fun js_isEven :: "jsnumber \<Rightarrow> bool" where
  "js_isEven (Finite x) \<longleftrightarrow> x / 2 = of_int \<lfloor>x / 2\<rfloor>"
| "js_isEven a \<longleftrightarrow> False"

text \<open>
  Three built-ins are left to the engine by ECMAScript, or are too large to write down, and
  are parameters of the rounding functions: the conversion of a string to a number, the
  power \<open>10 ** y\<close> and \<open>Math.log10\<close> (both "implementation-approximated").
\<close>

record builtins =
  StringToNumber :: "string \<Rightarrow> jsnumber"
  tenToThe :: "jsnumber \<Rightarrow> jsnumber"
  Math_log10 :: "jsnumber \<Rightarrow> jsnumber"

text \<open>
  The built-ins used to run the functions on a given number: the power of ten is the
  double nearest to the exact power, and the logarithm is replaced by the integer just
  below it, which is all the code looks at. They are defined for an integral exponent and
  read no string as a number.
\<close>

definition nearestTenToThe :: "jsnumber \<Rightarrow> jsnumber" where
  "nearestTenToThe y =
     (case y of
        Finite e \<Rightarrow> if e = of_int \<lfloor>e\<rfloor> then toDouble (pow10 \<lfloor>e\<rfloor>) else NaN
      | PosInfinity \<Rightarrow> PosInfinity
      | NegInfinity \<Rightarrow> Finite 0
      | NaN \<Rightarrow> NaN)"

definition floorLog10 :: "jsnumber \<Rightarrow> jsnumber" where
  "floorLog10 a =
     (case a of
        Finite v \<Rightarrow>
          if v < 0 then NaN
          else if v = 0 then NegInfinity
          else if 1 \<le> v then Finite (of_nat (log10_floor_ge1 v))
          else Finite (- of_nat (neg_log10_floor_lt1 v))
      | PosInfinity \<Rightarrow> PosInfinity
      | NegInfinity \<Rightarrow> NaN
      | NaN \<Rightarrow> NaN)"

definition plainBuiltins :: builtins where
  "plainBuiltins =
     \<lparr>StringToNumber = (\<lambda>s. NaN), tenToThe = nearestTenToThe, Math_log10 = floorLog10\<rparr>"

section \<open>Rounding engine\<close>

text \<open>
  getSignificantDigitIndex (number/getSignificantDigitIndex.ts) on doubles:
  \<open>-Math.floor(Math.log10(value))\<close>, with \<open>-0\<close> turned into \<open>0\<close>.
\<close>

definition getSignificantDigitIndex_double :: "builtins \<Rightarrow> jsnumber \<Rightarrow> jsnumber" where
  "getSignificantDigitIndex_double B value = js_neg (js_floor (Math_log10 B value))"

text \<open>
  toBankersRound (number/toBankersRound.ts), lines 106 to 123: the scaled value is split
  into integer and fractional part; a fractional part between \<open>0.5 - epsilon\<close> and
  \<open>0.5 + epsilon\<close> goes to the even neighbour, anything else through \<open>Math.round\<close>.
\<close>

definition roundedValue_double :: "jsnumber \<Rightarrow> jsnumber" where
  "roundedValue_double scaledValue =
     (let integerPart = js_floor scaledValue;
          fractionalPart = js_minus scaledValue integerPart;
          epsilon = toDouble (1 / 10 ^ 8);
          isExactlyHalf = (js_less (js_minus (Finite (1 / 2)) epsilon) fractionalPart
                           \<and> js_less fractionalPart (js_plus (Finite (1 / 2)) epsilon))
      in if isExactlyHalf
         then (if js_isEven integerPart then integerPart else js_plus integerPart (Finite 1))
         else js_round scaledValue)"

text \<open>
  toBankersRound, lines 70 to 126. The precision is an integer, \<open>1\<close> when the option is
  left out.
\<close>

definition toBankersRound :: "builtins \<Rightarrow> MaybeNumericInput \<Rightarrow> int \<Rightarrow> error + jsnumber" where
  "toBankersRound B input precision =
     (case checkMaybeNumericInput (StringToNumber B) input of
        Inl e \<Rightarrow> Inl e
      | Inr _ \<Rightarrow>
          let value = Number (StringToNumber B) input
          in if value = Finite 0 then Inr (Finite 0)
             else
               let absoluteValue = js_abs value;
                   effectivePrecision =
                     (if js_less absoluteValue (Finite 1)
                      then js_max (getSignificantDigitIndex_double B absoluteValue)
                             (Finite (of_int precision))
                      else Finite (of_int precision));
                   scaleFactor = tenToThe B effectivePrecision;
                   scaledValue =
                     js_toFixed8 (if js_truthy effectivePrecision
                                  then js_times value scaleFactor else value);
                   roundedValue = roundedValue_double scaledValue
               in Inr (if js_truthy effectivePrecision
                       then js_divide roundedValue scaleFactor else roundedValue))"

text \<open>roundHalfAwayFromZero (number/roundHalfAwayFromZero.ts), lines 68 to 102.\<close>

definition roundHalfAwayFromZero ::
  "builtins \<Rightarrow> MaybeNumericInput \<Rightarrow> int \<Rightarrow> error + jsnumber" where
  "roundHalfAwayFromZero B input precision =
     (case checkMaybeNumericInput (StringToNumber B) input of
        Inl e \<Rightarrow> Inl e
      | Inr _ \<Rightarrow>
          let numericValue = Number (StringToNumber B) input;
              absoluteValue = js_abs numericValue;
              sign = (if js_less numericValue (Finite 0) then Finite (- 1) else Finite 1);
              multiplier = tenToThe B (Finite (of_int precision));
              scaledValue = js_toFixed8 (js_times absoluteValue multiplier);
              rounded = js_round scaledValue
          in Inr (js_divide (js_times sign rounded) multiplier))"

section \<open>Rounding in exact arithmetic\<close>

text \<open>
  The unit functions below are modelled over the rationals: their numbers are finite,
  the products with a power of ten are exact, and toBankersRound is read in exact
  arithmetic, as \<open>bankersRound_finite\<close>. It is the body of toBankersRound with every
  operation exact, the logarithm included.
\<close>

text \<open>
  getSignificantDigitIndex in exact arithmetic. For zero the source yields \<open>Infinity\<close> and
  for a negative value \<open>NaN\<close>: \<open>None\<close> here.
\<close>

definition getSignificantDigitIndex :: "rat \<Rightarrow> int option" where
  "getSignificantDigitIndex v =
     (if v \<le> 0 then None
      else if 1 \<le> v then Some (- int (log10_floor_ge1 v))
      else Some (int (neg_log10_floor_lt1 v)))"

text \<open>
  Lines 106 to 123 of toBankersRound. \<open>integerPart % 2 === 0\<close> holds exactly for the even
  integers, of either sign.
\<close>

definition roundedValue :: "rat \<Rightarrow> int" where
  "roundedValue scaledValue =
     (let integerPart = \<lfloor>scaledValue\<rfloor>;
          fractionalPart = scaledValue - of_int integerPart;
          epsilon = 1 / 10 ^ 8;
          isExactlyHalf = (fractionalPart > 1 / 2 - epsilon \<and> fractionalPart < 1 / 2 + epsilon)
      in if isExactlyHalf
         then (if integerPart mod 2 = 0 then integerPart else integerPart + 1)
         else Math_round scaledValue)"

text \<open>
  Lines 87 to 90. getSignificantDigitIndex is only asked about a magnitude strictly between
  zero and one, where it is defined; the \<open>None\<close> branch is never taken.
\<close>

definition effectivePrecision :: "rat \<Rightarrow> int \<Rightarrow> int" where
  "effectivePrecision absoluteValue precision =
     (if absoluteValue < 1
      then (case getSignificantDigitIndex absoluteValue of
              Some k \<Rightarrow> max k precision
            | None \<Rightarrow> precision)
      else precision)"

text \<open>
  Lines 78 to 126 on a finite value. A precision of \<open>0\<close> is falsy: the value is then
  neither scaled nor descaled.
\<close>

definition bankersRound_finite :: "rat \<Rightarrow> int \<Rightarrow> rat" where
  "bankersRound_finite value precision =
     (if value = 0 then 0
      else let absoluteValue = \<bar>value\<bar>;
               ep = effectivePrecision absoluteValue precision;
               scaleFactor = pow10 ep;
               scaledValue = toFixed8 (if ep \<noteq> 0 then value * scaleFactor else value);
               r = roundedValue scaledValue
           in if ep \<noteq> 0 then of_int r / scaleFactor else of_int r)"

section \<open>Unit ladders\<close>

text \<open>
  An entry of a \<open>UnitMap\<close> (unit/types.ts) and the \<open>ConvertedReturn\<close> of the conversions.
  A suffix read from an array may be \<open>undefined\<close>: \<open>None\<close>. The numbers handed to the unit
  functions are finite, so the validation inside toBankersRound succeeds and its body runs
  with the default precision \<open>1\<close>, in exact arithmetic.
\<close>

record ladder =
  gap :: int
  suffices :: "string list"
  baseIndex :: nat

record ConvertedReturn =
  number :: rat
  unit :: string
  suffix :: "string option"

type_synonym UnitMap = "string \<rightharpoonup> ladder"

text \<open>
  The invariant of a ladder in the data model: a positive gap, a non-empty list of
  distinct suffixes, and a base index inside it. The built-in map satisfies it; a
  caller's map is not checked by the code.
\<close>

definition wellFormed :: "ladder \<Rightarrow> bool" where
  "wellFormed L \<longleftrightarrow>
     0 < gap L \<and> suffices L \<noteq> [] \<and> distinct (suffices L) \<and> baseIndex L < length (suffices L)"

text \<open>The superscript two of the area suffixes is written as its two UTF-8 bytes.\<close>

definition BASE_UNIT_MAP :: UnitMap where
  "BASE_UNIT_MAP = map_of
     [(''area'', \<lparr>gap = 6,
         suffices = [''cm'' @ [CHR 0xC2, CHR 0xB2], ''m'' @ [CHR 0xC2, CHR 0xB2],
                     ''km'' @ [CHR 0xC2, CHR 0xB2]],
         baseIndex = 1\<rparr>),
      (''mass'', \<lparr>gap = 3, suffices = [''g'', ''kg'', ''ton''], baseIndex = 1\<rparr>),
      (''volume'', \<lparr>gap = 3, suffices = [''mL'', ''L'', ''kL''], baseIndex = 1\<rparr>),
      (''data'', \<lparr>gap = 3, suffices = [''B'', ''KB'', ''MB'', ''GB'', ''TB'', ''PB''],
         baseIndex = 0\<rparr>),
      (''count'', \<lparr>gap = 3, suffices = [[], ''K'', ''M'', ''B'', ''T''], baseIndex = 0\<rparr>),
      (''custom'', \<lparr>gap = 3, suffices = [[]], baseIndex = 0\<rparr>)]"

text \<open>\<open>Array.prototype.indexOf\<close>: the first position of the element, \<open>-1\<close> when absent.\<close>

fun indexOf :: "'a list \<Rightarrow> 'a \<Rightarrow> int" where
  "indexOf [] x = - 1"
| "indexOf (y # ys) x =
     (if y = x then 0
      else let r = indexOf ys x in if r = - 1 then - 1 else r + 1)"

text \<open>\<open>xs[i]\<close>: \<open>undefined\<close> outside the array.\<close>

definition element :: "'a list \<Rightarrow> int \<Rightarrow> 'a option" where
  "element xs i = (if 0 \<le> i \<and> i < int (length xs) then Some (xs ! nat i) else None)"

text \<open>
  \<open>from ? suffices.indexOf(from) : baseIndex\<close>, the same line in convertUnitFromTo,
  convertUnitToFit and getOptimalUnit. An omitted \<open>from\<close> and the empty string are falsy.
\<close>

definition fromIndexOf :: "string list \<Rightarrow> nat \<Rightarrow> string option \<Rightarrow> int" where
  "fromIndexOf sfx bi from =
     (case from of
        None \<Rightarrow> int bi
      | Some f \<Rightarrow> if f \<noteq> [] then indexOf sfx f else int bi)"

section \<open>Unit converter\<close>

text \<open>convertUnitFromTo (unit/convertUnitFromTo.ts).\<close>

definition convertUnitFromTo ::
  "rat \<Rightarrow> UnitMap \<Rightarrow> string \<Rightarrow> string option \<Rightarrow> string \<Rightarrow> error + ConvertedReturn" where
  "convertUnitFromTo num unitMap u from to =
     (case unitMap u of
        None \<Rightarrow> Inl (InvalidUnit u)
      | Some targetUnitItem \<Rightarrow>
          let fromIndex = fromIndexOf (suffices targetUnitItem) (baseIndex targetUnitItem) from;
              toIndex = indexOf (suffices targetUnitItem) to
          in if fromIndex = - 1 then Inl (InvalidFromSuffix from)
             else if toIndex = - 1 then Inl (InvalidToSuffix (Some to))
             else let diff = (toIndex - fromIndex) * gap targetUnitItem;
                      n = num * pow10 (- diff)
                  in Inr \<lparr>number = bankersRound_finite n 1, unit = u, suffix = Some to\<rparr>)"

text \<open>convertUnitToBase (unit/convertUnitToBase.ts); its \<open>from\<close> is required.\<close>

definition convertUnitToBase ::
  "rat \<Rightarrow> UnitMap \<Rightarrow> string \<Rightarrow> string \<Rightarrow> error + ConvertedReturn" where
  "convertUnitToBase num unitMap u from =
     (case unitMap u of
        None \<Rightarrow> Inl (InvalidUnit u)
      | Some targetUnitItem \<Rightarrow>
          (case element (suffices targetUnitItem) (int (baseIndex targetUnitItem)) of
             None \<Rightarrow> Inl (InvalidToSuffix None)
           | Some to \<Rightarrow> convertUnitFromTo num unitMap u (Some from) to))"

section \<open>Unit auto-fit\<close>

text \<open>
  The loop of convertUnitToFit (unit/convertUnitToFit.ts, lines 78 to 90) over the candidate
  suffixes that remain, \<open>i\<close> being the index of the first of them: the first candidate
  whose rounded magnitude is in the window is returned with the rounded value.
\<close>

fun fitLoop :: "rat \<Rightarrow> int \<Rightarrow> int \<Rightarrow> int \<Rightarrow> string list \<Rightarrow> nat \<Rightarrow> (rat \<times> string) option" where
  "fitLoop num sign g gapWithOffset [] i = None"
| "fitLoop num sign g gapWithOffset (s # rest) i =
     (let exponent = sign * (int i + 1) * g;
          scale = num * pow10 exponent;
          rounded = bankersRound_finite scale 1;
          absRounded = \<bar>rounded\<bar>
      in if 1 \<le> absRounded \<and> absRounded < pow10 gapWithOffset
         then Some (rounded, s)
         else fitLoop num sign g gapWithOffset rest (Suc i))"

definition convertUnitToFit ::
  "rat \<Rightarrow> UnitMap \<Rightarrow> string \<Rightarrow> string option \<Rightarrow> bool \<Rightarrow> error + ConvertedReturn" where
  "convertUnitToFit num unitMap u from offset =
     (case unitMap u of
        None \<Rightarrow> Inl (InvalidUnit u)
      | Some targetUnitItem \<Rightarrow>
          let g = gap targetUnitItem;
              sfx = suffices targetUnitItem;
              fromIndex = fromIndexOf sfx (baseIndex targetUnitItem) from
          in if fromIndex = - 1 then Inl (InvalidFromSuffix from)
             else
               let absNumber = \<bar>num\<bar>;
                   largerSuffices = drop (nat (fromIndex + 1)) sfx;
                   smallerSuffices = take (nat fromIndex) sfx;
                   targetSuffices = (if absNumber < 1 then smallerSuffices else largerSuffices);
                   sign = (if absNumber < 1 then 1 else - 1);
                   gapWithOffset = (if offset then g + 1 else g)
               in if (1 \<le> absNumber \<and> absNumber < pow10 gapWithOffset) \<or> targetSuffices = []
                  then Inr \<lparr>number = bankersRound_finite num 1, unit = u,
                             suffix = element sfx fromIndex\<rparr>
                  else
                    (case fitLoop num sign g gapWithOffset targetSuffices 0 of
                       Some (rounded, s) \<Rightarrow> Inr \<lparr>number = rounded, unit = u, suffix = Some s\<rparr>
                     | None \<Rightarrow>
                         let lastSuffix = last targetSuffices;
                             totalSteps = int (length targetSuffices);
                             finalNumber = bankersRound_finite (num * pow10 (sign * totalSteps * g)) 1
                         in Inr \<lparr>number = finalNumber, unit = u, suffix = Some lastSuffix\<rparr>))"

text \<open>
  The acceptable display window of the fit, \<open>1 <= |x| && |x| < 10 ** gapWithOffset\<close>, as
  lines 66 and 84 test it.
\<close>

definition inWindow :: "int \<Rightarrow> rat \<Rightarrow> bool" where
  "inWindow gapWithOffset x \<longleftrightarrow> 1 \<le> \<bar>x\<bar> \<and> \<bar>x\<bar> < pow10 gapWithOffset"

section \<open>Optimal-unit selector\<close>

datatype optimizer = OptMin | OptMax | OptFreq | OptOther string

text \<open>
  \<open>Math.min(x, ...xs)\<close> and \<open>Math.max(x, ...xs)\<close> of a non-empty argument list of finite
  numbers.
\<close>

definition Math_min :: "rat \<Rightarrow> rat list \<Rightarrow> rat" where
  "Math_min x xs = fold min xs x"

definition Math_max :: "rat \<Rightarrow> rat list \<Rightarrow> rat" where
  "Math_max x xs = fold max xs x"

text \<open>
  \<open>result[suffix] = (result[suffix] ?? 0) + 1\<close> on an object whose keys are kept in the
  order of their first insertion (keys that spell an array index would be enumerated
  first by \<open>Object.entries\<close>; no suffix of the built-in map does).
\<close>

fun tally :: "(string \<times> nat) list \<Rightarrow> string \<Rightarrow> (string \<times> nat) list" where
  "tally [] k = [(k, 1)]"
| "tally ((k', c) # rest) k =
     (if k' = k then (k', c + 1) # rest else (k', c) # tally rest k)"

text \<open>The \<open>reduce\<close> of the \<open>freq\<close> branch; a throwing conversion ends it with the error.\<close>

fun freqCount ::
  "UnitMap \<Rightarrow> string \<Rightarrow> string \<Rightarrow> bool \<Rightarrow> (string \<times> nat) list \<Rightarrow> rat list
   \<Rightarrow> error + (string \<times> nat) list" where
  "freqCount unitMap u fromSuffix offset result [] = Inr result"
| "freqCount unitMap u fromSuffix offset result (n # ns) =
     (case convertUnitToFit n unitMap u (Some fromSuffix) offset of
        Inl e \<Rightarrow> Inl e
      | Inr converted \<Rightarrow>
          freqCount unitMap u fromSuffix offset
            (tally result (case suffix converted of None \<Rightarrow> ''undefined'' | Some s \<Rightarrow> s)) ns)"

text \<open>
  getOptimalUnit (unit/getOptimalUnit.ts). \<open>from ?? suffices[baseIndex]\<close> replaces only an
  omitted \<open>from\<close>. The empty array is answered before the strategy is looked at. The
  sort by descending count is stable, and its first entry exists since the array is not
  empty.
\<close>

definition getOptimalUnit ::
  "rat list \<Rightarrow> UnitMap \<Rightarrow> string \<Rightarrow> string option \<Rightarrow> bool \<Rightarrow> optimizer
   \<Rightarrow> error + string option" where
  "getOptimalUnit numbers unitMap u from offset opt =
     (case unitMap u of
        None \<Rightarrow> Inl (InvalidUnit u)
      | Some targetUnitItem \<Rightarrow>
          let sfx = suffices targetUnitItem;
              bi = baseIndex targetUnitItem;
              fromIndex = fromIndexOf sfx bi from
          in if fromIndex = - 1 then Inl (InvalidFromSuffix from)
             else
               (case (case from of Some f \<Rightarrow> Some f | None \<Rightarrow> element sfx (int bi)) of
                  None \<Rightarrow> Inl (InvalidFromSuffix from)
                | Some fromSuffix \<Rightarrow>
                    (case map abs numbers of
                       [] \<Rightarrow> Inr (Some fromSuffix)
                     | a # as \<Rightarrow>
                         (case opt of
                            OptMin \<Rightarrow>
                              map_sum id suffix
                                (convertUnitToFit (Math_min a as) unitMap u (Some fromSuffix) offset)
                          | OptMax \<Rightarrow>
                              map_sum id suffix
                                (convertUnitToFit (Math_max a as) unitMap u (Some fromSuffix) offset)
                          | OptFreq \<Rightarrow>
                              (case freqCount unitMap u fromSuffix offset [] (a # as) of
                                 Inl e \<Rightarrow> Inl e
                               | Inr entries \<Rightarrow>
                                   Inr (Some (fst (hd (sort_key (\<lambda>(k, c). - int c) entries)))))
                          | OptOther s \<Rightarrow> Inl (UnknownOptimizer s)))))"

section \<open>Basic facts\<close>

subsection \<open>Powers of ten and the rounding built-ins\<close>

lemma pow10_powi: "pow10 e = 10 powi e"
  by (simp add: pow10_def power_int_def inverse_eq_divide power_one_over)

lemma pow10_pos: "0 < pow10 e"
  by (simp add: pow10_powi)

lemma pow10_add: "pow10 (a + b) = pow10 a * pow10 b"
  by (simp add: pow10_powi power_int_add)

lemma pow10_0: "pow10 0 = 1"
  by (simp add: pow10_def)

lemma pow10_1: "pow10 1 = 10"
  by (simp add: pow10_def)

lemma pow10_mono: "a \<le> b \<Longrightarrow> pow10 a \<le> pow10 b"
  by (simp add: pow10_powi power_int_increasing)

lemma pow10_ge1: "0 \<le> e \<Longrightarrow> 1 \<le> pow10 e"
  using pow10_mono [of 0 e] by (simp add: pow10_0)

lemma Math_round_of_int: "Math_round (of_int k) = k"
  by (simp add: Math_round_def floor_eq_iff)

lemma toFixed8_of_int: "toFixed8 (of_int k) = of_int k"
proof -
  have a: "\<lfloor>rat_of_int k * 10 ^ 8 + 1 / 2\<rfloor> = k * 10 ^ 8"
    by (rule floor_unique) simp_all
  have b: "\<lfloor>- rat_of_int k * 10 ^ 8 + 1 / 2\<rfloor> = - k * 10 ^ 8"
    by (rule floor_unique) simp_all
  show ?thesis
    using a b by (simp add: toFixed8_def)
qed

lemma roundedValue_of_int: "roundedValue (of_int k) = k"
  by (simp add: roundedValue_def Let_def Math_round_of_int)

subsection \<open>Array lookups\<close>

lemma indexOf_ge: "- 1 \<le> indexOf xs x"
  by (induction xs) (auto simp: Let_def)

lemma indexOf_absent: "indexOf xs x = - 1 \<longleftrightarrow> x \<notin> set xs"
proof (induction xs)
  case Nil
  then show ?case by simp
next
  case (Cons y ys)
  have "- 1 \<le> indexOf ys x" by (rule indexOf_ge)
  then show ?case using Cons by (auto simp: Let_def)
qed

lemma indexOf_bounds:
  "x \<in> set xs \<Longrightarrow> 0 \<le> indexOf xs x \<and> indexOf xs x < int (length xs)"
proof (induction xs)
  case Nil
  then show ?case by simp
next
  case (Cons y ys)
  show ?case
  proof (cases "y = x")
    case True
    then show ?thesis by simp
  next
    case False
    then have "x \<in> set ys" using Cons.prems by simp
    then show ?thesis using Cons.IH False by (auto simp: Let_def)
  qed
qed

lemma indexOf_nth: "x \<in> set xs \<Longrightarrow> xs ! nat (indexOf xs x) = x"
proof (induction xs)
  case Nil
  then show ?case by simp
next
  case (Cons y ys)
  show ?case
  proof (cases "y = x")
    case True
    then show ?thesis by simp
  next
    case False
    then have in_ys: "x \<in> set ys" using Cons.prems by simp
    then have "0 \<le> indexOf ys x" by (simp add: indexOf_bounds)
    then have "nat (indexOf ys x + 1) = Suc (nat (indexOf ys x))" by simp
    then show ?thesis using Cons.IH in_ys False by (auto simp: Let_def)
  qed
qed

lemma indexOf_distinct:
  "distinct xs \<Longrightarrow> i < length xs \<Longrightarrow> indexOf xs (xs ! i) = int i"
proof (induction xs arbitrary: i)
  case Nil
  then show ?case by simp
next
  case (Cons y ys)
  show ?case
  proof (cases i)
    case 0
    then show ?thesis by simp
  next
    case (Suc j)
    then have j: "j < length ys" using Cons.prems by simp
    then have "ys ! j \<in> set ys" by simp
    then have "y \<noteq> ys ! j" using Cons.prems by auto
    moreover have "indexOf ys (ys ! j) = int j" using Cons.IH Cons.prems j by simp
    ultimately show ?thesis using Suc by (simp add: Let_def)
  qed
qed

lemma fromIndexOf_empty: "fromIndexOf sfx bi (Some []) = fromIndexOf sfx bi None"
  by (simp add: fromIndexOf_def)

lemma fromIndexOf_omitted: "fromIndexOf sfx bi None = int bi"
  by (simp add: fromIndexOf_def)

section \<open>Properties of the unit converter\<close>




section \<open>Properties of the auto-fit engine\<close>

lemma fitLoop_Some_mem:
  "fitLoop n sign g gw ts i = Some (r, s) \<Longrightarrow> s \<in> set ts"
  by (induction ts arbitrary: i) (auto simp: Let_def split: if_splits)

lemma all_less_Suc_split: "(\<forall>j < Suc k. P j) \<longleftrightarrow> P 0 \<and> (\<forall>j < k. P (Suc j))"
  by (auto simp: less_Suc_eq_0_disj)

lemma fitLoop_None_iff:
  "fitLoop n sign g gw ts i = None \<longleftrightarrow>
     (\<forall>j < length ts.
        \<not> inWindow gw (bankersRound_finite (n * pow10 (sign * (int (i + j) + 1) * g)) 1))"
proof (induction ts arbitrary: i)
  case Nil
  then show ?case by simp
next
  case (Cons s rest)
  have "(\<forall>j < length (s # rest).
           \<not> inWindow gw (bankersRound_finite (n * pow10 (sign * (int (i + j) + 1) * g)) 1))
        \<longleftrightarrow> \<not> inWindow gw (bankersRound_finite (n * pow10 (sign * (int i + 1) * g)) 1)
            \<and> (\<forall>j < length rest.
                 \<not> inWindow gw (bankersRound_finite (n * pow10 (sign * (int (Suc i + j) + 1) * g)) 1))"
    by (simp add: all_less_Suc_split)
  then show ?case
    using Cons.IH [of "Suc i"] by (simp add: Let_def inWindow_def)
qed

lemma distinct_nth_not_before_after:
  assumes "distinct xs" "i < length xs"
  shows "xs ! i \<notin> set (take i xs)" and "xs ! i \<notin> set (drop (Suc i) xs)"
proof -
  have "distinct (take i xs @ xs ! i # drop (Suc i) xs)"
    using assms by (simp only: id_take_nth_drop [symmetric])
  then show "xs ! i \<notin> set (take i xs)" and "xs ! i \<notin> set (drop (Suc i) xs)"
    by auto
qed

lemma convertUnitToFit_keeps:
  assumes "unitMap u = Some L"
    and "fromIndexOf (suffices L) (baseIndex L) from = int i"
    and "(1 \<le> \<bar>n\<bar> \<and> \<bar>n\<bar> < pow10 (if offset then gap L + 1 else gap L))
         \<or> (if \<bar>n\<bar> < 1 then take i (suffices L) else drop (Suc i) (suffices L)) = []"
  shows "convertUnitToFit n unitMap u from offset
           = Inr \<lparr>number = bankersRound_finite n 1, unit = u,
                  suffix = element (suffices L) (int i)\<rparr>"
  using assms by (auto simp: convertUnitToFit_def Let_def nat_add_distrib)

lemma convertUnitToFit_moves:
  assumes "unitMap u = Some L"
    and "fromIndexOf (suffices L) (baseIndex L) from = int i"
    and "\<not> (1 \<le> \<bar>n\<bar> \<and> \<bar>n\<bar> < pow10 (if offset then gap L + 1 else gap L))"
    and "(if \<bar>n\<bar> < 1 then take i (suffices L) else drop (Suc i) (suffices L)) \<noteq> []"
  shows "\<exists>r s. convertUnitToFit n unitMap u from offset
                 = Inr \<lparr>number = r, unit = u, suffix = Some s\<rparr>
               \<and> s \<in> set (if \<bar>n\<bar> < 1 then take i (suffices L) else drop (Suc i) (suffices L))"
proof -
  let ?ts = "if \<bar>n\<bar> < 1 then take i (suffices L) else drop (Suc i) (suffices L)"
  let ?sign = "if \<bar>n\<bar> < 1 then 1 else - 1 :: int"
  let ?gw = "if offset then gap L + 1 else gap L"
  have unfold: "convertUnitToFit n unitMap u from offset =
    (case fitLoop n ?sign (gap L) ?gw ?ts 0 of
       Some (rounded, s) \<Rightarrow> Inr \<lparr>number = rounded, unit = u, suffix = Some s\<rparr>
     | None \<Rightarrow> Inr \<lparr>number = bankersRound_finite (n * pow10 (?sign * int (length ?ts) * gap L)) 1,
                     unit = u, suffix = Some (last ?ts)\<rparr>)"
    using assms
    by (auto simp: convertUnitToFit_def Let_def nat_add_distrib split: option.splits)
  show ?thesis
  proof (cases "fitLoop n ?sign (gap L) ?gw ?ts 0")
    case None
    then show ?thesis using unfold assms(4) last_in_set by fastforce
  next
    case (Some p)
    obtain r s where p: "p = (r, s)" by (cases p)
    then have "s \<in> set ?ts" using Some fitLoop_Some_mem by blast
    then show ?thesis using unfold Some p by simp
  qed
qed

lemma element_in_range: "i < length xs \<Longrightarrow> element xs (int i) = Some (xs ! i)"
  by (simp add: element_def)

lemma in_set_drop_nth:
  assumes "x \<in> set (drop k xs)"
  shows "\<exists>j. k \<le> j \<and> j < length xs \<and> x = xs ! j"
proof -
  obtain m where m: "m < length (drop k xs)" "drop k xs ! m = x"
    using assms by (auto simp: in_set_conv_nth)
  then have "k + m < length xs" by simp
  moreover have "x = xs ! (k + m)" using m by simp
  ultimately show ?thesis by (intro exI [of _ "k + m"]) simp
qed

lemma convertUnitToFit_walks:
  assumes "unitMap u = Some L"
    and "fromIndexOf (suffices L) (baseIndex L) from = int i"
    and "\<not> (1 \<le> \<bar>n\<bar> \<and> \<bar>n\<bar> < pow10 (if offset then gap L + 1 else gap L))"
    and "(if \<bar>n\<bar> < 1 then take i (suffices L) else drop (Suc i) (suffices L)) \<noteq> []"
  shows "convertUnitToFit n unitMap u from offset =
    (case fitLoop n (if \<bar>n\<bar> < 1 then 1 else - 1) (gap L) (if offset then gap L + 1 else gap L)
            (if \<bar>n\<bar> < 1 then take i (suffices L) else drop (Suc i) (suffices L)) 0 of
       Some (rounded, s) \<Rightarrow> Inr \<lparr>number = rounded, unit = u, suffix = Some s\<rparr>
     | None \<Rightarrow>
         Inr \<lparr>number = bankersRound_finite
                  (n * pow10 ((if \<bar>n\<bar> < 1 then 1 else - 1)
                     * int (length (if \<bar>n\<bar> < 1 then take i (suffices L)
                                    else drop (Suc i) (suffices L)))
                     * gap L)) 1,
               unit = u,
               suffix = Some (last (if \<bar>n\<bar> < 1 then take i (suffices L)
                                    else drop (Suc i) (suffices L)))\<rparr>)"
  using assms
  by (auto simp: convertUnitToFit_def Let_def nat_add_distrib split: option.splits)

lemma fitLoop_Some_nth:
  "fitLoop n sign g gw ts i = Some (r, s) \<Longrightarrow>
     \<exists>k < length ts. s = ts ! k
        \<and> r = bankersRound_finite (n * pow10 (sign * (int (i + k) + 1) * g)) 1"
proof (induction ts arbitrary: i)
  case Nil
  then show ?case by simp
next
  case (Cons t rest)
  show ?case
  proof (cases "inWindow gw (bankersRound_finite (n * pow10 (sign * (int i + 1) * g)) 1)")
    case True
    then have "s = t" "r = bankersRound_finite (n * pow10 (sign * (int i + 1) * g)) 1"
      using Cons.prems by (auto simp: Let_def inWindow_def split: if_splits)
    then show ?thesis by (intro exI [of _ 0]) simp
  next
    case False
    then have "fitLoop n sign g gw rest (Suc i) = Some (r, s)"
      using Cons.prems by (auto simp: Let_def inWindow_def split: if_splits)
    then obtain k where k: "k < length rest" "s = rest ! k"
        "r = bankersRound_finite (n * pow10 (sign * (int (Suc i + k) + 1) * g)) 1"
      using Cons.IH by blast
    then show ?thesis by (intro exI [of _ "Suc k"]) simp
  qed
qed

text \<open>
  Toward larger units the walk pairs each candidate with its own rescaling: the result of
  a fit of a magnitude of at least one is some suffix at or above the start, with the
  number rescaled by the ladder steps between the two.
\<close>

lemma convertUnitToFit_upward:
  assumes "unitMap u = Some L"
    and "fromIndexOf (suffices L) (baseIndex L) from = int i"
    and "i < length (suffices L)"
    and "1 \<le> \<bar>n\<bar>"
  shows "\<exists>j. i \<le> j \<and> j < length (suffices L)
           \<and> convertUnitToFit n unitMap u from offset
               = Inr \<lparr>number = bankersRound_finite (n * pow10 ((int i - int j) * gap L)) 1,
                      unit = u, suffix = Some (suffices L ! j)\<rparr>"
proof -
  let ?sfx = "suffices L"
  let ?gw = "if offset then gap L + 1 else gap L"
  let ?ts = "drop (Suc i) ?sfx"
  note keeps = convertUnitToFit_keeps [of unitMap u L "from" i n offset, OF assms(1,2)]
  note walks = convertUnitToFit_walks [of unitMap u L "from" i n offset, OF assms(1,2)]
  show ?thesis
  proof (cases "\<bar>n\<bar> < pow10 ?gw \<or> ?ts = []")
    case True
    then have "convertUnitToFit n unitMap u from offset
                 = Inr \<lparr>number = bankersRound_finite n 1, unit = u,
                        suffix = element ?sfx (int i)\<rparr>"
      using keeps assms(4) by auto
    then have "convertUnitToFit n unitMap u from offset
                 = Inr \<lparr>number = bankersRound_finite (n * pow10 ((int i - int i) * gap L)) 1,
                        unit = u, suffix = Some (?sfx ! i)\<rparr>"
      using assms(3) by (simp add: element_in_range pow10_0)
    then show ?thesis using assms(3) by (intro exI [of _ i]) simp
  next
    case False
    then have out: "\<not> \<bar>n\<bar> < pow10 ?gw" and ne: "?ts \<noteq> []" by simp_all
    then have more: "Suc i < length ?sfx" by simp
    have w: "convertUnitToFit n unitMap u from offset =
      (case fitLoop n (- 1) (gap L) ?gw ?ts 0 of
         Some (rounded, s) \<Rightarrow> Inr \<lparr>number = rounded, unit = u, suffix = Some s\<rparr>
       | None \<Rightarrow> Inr \<lparr>number = bankersRound_finite (n * pow10 (- 1 * int (length ?ts) * gap L)) 1,
                       unit = u, suffix = Some (last ?ts)\<rparr>)"
      using walks assms(4) out ne by simp
    show ?thesis
    proof (cases "fitLoop n (- 1) (gap L) ?gw ?ts 0")
      case None
      have ex: "- 1 * int (length ?ts) * gap L = (int i - int (length ?sfx - 1)) * gap L"
        using more by (simp add: of_nat_diff algebra_simps)
      have "last ?ts = last ?sfx" using more by simp
      moreover have "last ?sfx = ?sfx ! (length ?sfx - 1)"
        using more by (intro last_conv_nth) auto
      ultimately have "last ?ts = ?sfx ! (length ?sfx - 1)" by simp
      then have "convertUnitToFit n unitMap u from offset
          = Inr \<lparr>number = bankersRound_finite
                   (n * pow10 ((int i - int (length ?sfx - 1)) * gap L)) 1,
                 unit = u, suffix = Some (?sfx ! (length ?sfx - 1))\<rparr>"
        using w None by (simp only: ex option.case)
      moreover have "i \<le> length ?sfx - 1 \<and> length ?sfx - 1 < length ?sfx"
        using more by linarith
      ultimately show ?thesis by (intro exI [of _ "length ?sfx - 1"]) simp
    next
      case (Some p)
      obtain r s where p: "p = (r, s)" by (cases p)
      obtain k where k: "k < length ?ts" "s = ?ts ! k"
          "r = bankersRound_finite (n * pow10 (- 1 * (int (0 + k) + 1) * gap L)) 1"
        using fitLoop_Some_nth [of n "- 1" "gap L" ?gw ?ts 0 r s] Some p by auto
      have ex: "- 1 * (int (0 + k) + 1) * gap L = (int i - int (Suc i + k)) * gap L"
        by simp
      have "s = ?sfx ! (Suc i + k)" using k(1,2) by simp
      then have "convertUnitToFit n unitMap u from offset
          = Inr \<lparr>number = bankersRound_finite (n * pow10 ((int i - int (Suc i + k)) * gap L)) 1,
                 unit = u, suffix = Some (?sfx ! (Suc i + k))\<rparr>"
        using w Some p k(3) by (simp only: ex option.case prod.case)
      then show ?thesis using k(1) by (intro exI [of _ "Suc i + k"]) simp
    qed
  qed
qed

text \<open>
  C1. The value returned by convertUnitToFit should be the input rescaled by the number of
  ladder steps between the starting suffix and the returned one. For a magnitude of at
  least one it is (\<open>convertUnitToFit_upward\<close> above). Below one it is not: half a ton,
  fitted from \<open>ton\<close> (index 2), comes back as \<open>500 g\<close> (index 0). The candidates below the
  start are walked from the bottom of the ladder, so the first step, a rescaling by one
  gap, is paired with \<open>g\<close> instead of \<open>kg\<close>. Two ladder steps separate \<open>ton\<close> from \<open>g\<close>,
  the value rescaled by two gaps is \<open>500000\<close>, and that is what convertUnitFromTo returns
  for the same magnitude.
\<close>

theorem convertUnitToFit_half_ton:
  "convertUnitToFit (1 / 2) BASE_UNIT_MAP ''mass'' (Some ''ton'') False
     = Inr \<lparr>number = 500, unit = ''mass'', suffix = Some ''g''\<rparr>
   \<and> indexOf [''g'', ''kg'', ''ton''] ''ton'' - indexOf [''g'', ''kg'', ''ton''] ''g'' = 2
   \<and> bankersRound_finite (1 / 2 * pow10 (2 * 3)) 1 = 500000
   \<and> convertUnitFromTo (1 / 2) BASE_UNIT_MAP ''mass'' (Some ''ton'') ''g''
     = Inr \<lparr>number = 500000, unit = ''mass'', suffix = Some ''g''\<rparr>"
  by code_simp

text \<open>
  The clamp where it is right. Take a call whose family and starting suffix resolve, the
  starting index being \<open>i\<close>. When the magnitude is at least one and outside the window, and
  no suffix above the start brings the rescaled, rounded magnitude into the window, the
  result is the last suffix of the ladder with the number rescaled all the way to it. When
  the magnitude is below one and the start is the first or the second suffix, and the
  first suffix does not bring the rounded magnitude into the window, the result is the
  first suffix with the number rescaled to it.
\<close>

lemma convertUnitToFit_clamps:
  assumes "unitMap u = Some L"
    and "fromIndexOf (suffices L) (baseIndex L) from = int i"
    and "i < length (suffices L)"
  shows "(1 \<le> \<bar>n\<bar> \<and> \<not> \<bar>n\<bar> < pow10 (if offset then gap L + 1 else gap L)
          \<and> (\<forall>j. i < j \<and> j < length (suffices L) \<longrightarrow>
                \<not> inWindow (if offset then gap L + 1 else gap L)
                    (bankersRound_finite (n * pow10 ((int i - int j) * gap L)) 1))
          \<longrightarrow> convertUnitToFit n unitMap u from offset
                = Inr \<lparr>number = bankersRound_finite
                         (n * pow10 ((int i - int (length (suffices L) - 1)) * gap L)) 1,
                       unit = u, suffix = Some (last (suffices L))\<rparr>)
       \<and> (\<bar>n\<bar> < 1 \<and> i \<le> 1
          \<and> (i = 1 \<longrightarrow> \<not> inWindow (if offset then gap L + 1 else gap L)
                          (bankersRound_finite (n * pow10 (gap L)) 1))
          \<longrightarrow> convertUnitToFit n unitMap u from offset
                = Inr \<lparr>number = bankersRound_finite (n * pow10 (int i * gap L)) 1,
                       unit = u, suffix = Some (suffices L ! 0)\<rparr>)"
proof -
  let ?sfx = "suffices L"
  let ?gw = "if offset then gap L + 1 else gap L"
  note keeps = convertUnitToFit_keeps [of unitMap u L "from" i n offset, OF assms(1,2)]
  note walks = convertUnitToFit_walks [of unitMap u L "from" i n offset, OF assms(1,2)]
  have ne: "?sfx \<noteq> []" using assms(3) by auto
  have larger: "convertUnitToFit n unitMap u from offset
                = Inr \<lparr>number = bankersRound_finite
                         (n * pow10 ((int i - int (length ?sfx - 1)) * gap L)) 1,
                       unit = u, suffix = Some (last ?sfx)\<rparr>"
    if one: "1 \<le> \<bar>n\<bar>" and out: "\<not> \<bar>n\<bar> < pow10 ?gw"
      and none: "\<forall>j. i < j \<and> j < length ?sfx \<longrightarrow>
                  \<not> inWindow ?gw (bankersRound_finite (n * pow10 ((int i - int j) * gap L)) 1)"
  proof (cases "Suc i < length ?sfx")
    case False
    then have i: "i = length ?sfx - 1" using assms(3) by simp
    have li: "last ?sfx = ?sfx ! i" using ne by (simp add: last_conv_nth i)
    have z: "(int i - int (length ?sfx - 1)) * gap L = 0" using i by simp
    have el: "element ?sfx (int i) = Some (?sfx ! i)"
      using assms(3) by (rule element_in_range)
    have "drop (Suc i) ?sfx = []" using False by simp
    then have "convertUnitToFit n unitMap u from offset
                 = Inr \<lparr>number = bankersRound_finite n 1, unit = u,
                        suffix = element ?sfx (int i)\<rparr>"
      using keeps one by simp
    then show ?thesis
      by (simp only: li z el pow10_0 mult_1_right)
  next
    case True
    let ?ts = "drop (Suc i) ?sfx"
    have ex: "- 1 * int (length ?ts) * gap L = (int i - int (length ?sfx - 1)) * gap L"
      using True by (simp add: of_nat_diff algebra_simps)
    have "fitLoop n (- 1) (gap L) ?gw ?ts 0 = None"
      unfolding fitLoop_None_iff
    proof (intro allI impI)
      fix k assume k: "k < length ?ts"
      then have "i < Suc i + k \<and> Suc i + k < length ?sfx" by simp
      then have h: "\<not> inWindow ?gw
          (bankersRound_finite (n * pow10 ((int i - int (Suc i + k)) * gap L)) 1)"
        using none by blast
      have eq: "(int i - int (Suc i + k)) * gap L = - 1 * (int (0 + k) + 1) * gap L"
        by simp
      from h show "\<not> inWindow ?gw
          (bankersRound_finite (n * pow10 (- 1 * (int (0 + k) + 1) * gap L)) 1)"
        by (simp only: eq not_False_eq_True)
    qed
    moreover have "last ?ts = last ?sfx" using True by simp
    ultimately have "convertUnitToFit n unitMap u from offset
        = Inr \<lparr>number = bankersRound_finite (n * pow10 (- 1 * int (length ?ts) * gap L)) 1,
               unit = u, suffix = Some (last ?sfx)\<rparr>"
      using walks one out True by simp
    then show ?thesis by (simp only: ex)
  qed
  have smaller: "convertUnitToFit n unitMap u from offset
                = Inr \<lparr>number = bankersRound_finite (n * pow10 (int i * gap L)) 1,
                       unit = u, suffix = Some (?sfx ! 0)\<rparr>"
    if small: "\<bar>n\<bar> < 1" and i1: "i \<le> 1"
      and none: "i = 1 \<longrightarrow> \<not> inWindow ?gw (bankersRound_finite (n * pow10 (gap L)) 1)"
  proof (cases "i = 0")
    case True
    then show ?thesis
      using keeps small ne by (simp add: element_def pow10_0)
  next
    case False
    then have i: "i = 1" using i1 by simp
    then have ts: "take i ?sfx = [?sfx ! 0]"
      using assms(3) by (cases ?sfx) simp_all
    have "fitLoop n 1 (gap L) ?gw [?sfx ! 0] 0 = None"
      using none i by (auto simp: Let_def inWindow_def)
    then show ?thesis
      using walks small ts i ne by simp
  qed
  show ?thesis using larger smaller by blast
qed

text \<open>
  C2. When no candidate in the search direction brings the rounded magnitude into the
  window, the result should carry the extreme suffix of the ladder in that direction:
  the first suffix for a magnitude below one. Upward, and downward from the first two
  suffixes, it does (\<open>convertUnitToFit_clamps\<close> above). Downward from further up it does
  not: a billionth of a ton, and zero tons, find no candidate in the window (\<open>1e-6\<close> and
  \<open>1e-3\<close>, \<open>0\<close> and \<open>0\<close>) and come back with the suffix \<open>kg\<close>, the last element of
  \<open>suffices.slice(0, fromIndex)\<close>, not with \<open>g\<close>, the first suffix of the ladder. The number
  is the one rescaled by both gaps, which belongs to \<open>g\<close>: convertUnitFromTo returns it
  for the target \<open>g\<close>. From \<open>kg\<close>, one step above the bottom, zero does come back as
  \<open>0 g\<close>.
\<close>

theorem convertUnitToFit_clamp_below_ton:
  "convertUnitToFit (1 / 1000000000) BASE_UNIT_MAP ''mass'' (Some ''ton'') False
     = Inr \<lparr>number = 1 / 1000, unit = ''mass'', suffix = Some ''kg''\<rparr>
   \<and> convertUnitToFit 0 BASE_UNIT_MAP ''mass'' (Some ''ton'') False
     = Inr \<lparr>number = 0, unit = ''mass'', suffix = Some ''kg''\<rparr>
   \<and> \<not> inWindow 3 (bankersRound_finite (1 / 1000000000 * pow10 3) 1)
   \<and> \<not> inWindow 3 (bankersRound_finite (1 / 1000000000 * pow10 (2 * 3)) 1)
   \<and> \<not> inWindow 3 (bankersRound_finite (0 * pow10 3) 1)
   \<and> \<not> inWindow 3 (bankersRound_finite (0 * pow10 (2 * 3)) 1)
   \<and> [''g'', ''kg'', ''ton''] ! 0 = ''g''
   \<and> convertUnitFromTo (1 / 1000000000) BASE_UNIT_MAP ''mass'' (Some ''ton'') ''g''
     = Inr \<lparr>number = 1 / 1000, unit = ''mass'', suffix = Some ''g''\<rparr>
   \<and> convertUnitToFit 0 BASE_UNIT_MAP ''mass'' (Some ''kg'') False
     = Inr \<lparr>number = 0, unit = ''mass'', suffix = Some ''g''\<rparr>"
  by code_simp

text \<open>
  C8. On a well-formed ladder the offset widens the window in which the starting suffix is
  kept, from \<open>10 ** gap\<close> to \<open>10 ** (gap + 1)\<close>: (a) a call without offset that returns the
  starting suffix returns the same result with offset; (b) a magnitude from \<open>10 ** gap\<close> up
  to, but not including, \<open>10 ** (gap + 1)\<close>, with a larger suffix available, keeps the
  starting suffix with offset and is moved to a larger suffix without it.
\<close>

theorem offset_widens_window:
  assumes "unitMap u = Some L" and "wellFormed L"
    and "fromIndexOf (suffices L) (baseIndex L) from = int i"
    and "i < length (suffices L)"
  shows "(convertUnitToFit n unitMap u from False = Inr r \<and> suffix r = Some (suffices L ! i)
            \<longrightarrow> convertUnitToFit n unitMap u from True = Inr r)
       \<and> (pow10 (gap L) \<le> \<bar>n\<bar> \<and> \<bar>n\<bar> < pow10 (gap L + 1) \<and> Suc i < length (suffices L)
            \<longrightarrow> convertUnitToFit n unitMap u from True
                  = Inr \<lparr>number = bankersRound_finite n 1, unit = u,
                         suffix = Some (suffices L ! i)\<rparr>
                \<and> (\<exists>r' j. convertUnitToFit n unitMap u from False = Inr r'
                      \<and> suffix r' = Some (suffices L ! j) \<and> i < j \<and> j < length (suffices L)
                      \<and> suffix r' \<noteq> Some (suffices L ! i)))"
proof -
  let ?sfx = "suffices L"
  let ?ts = "if \<bar>n\<bar> < 1 then take i ?sfx else drop (Suc i) ?sfx"
  note keeps = convertUnitToFit_keeps [of unitMap u L "from" i, OF assms(1,3)]
  note moves = convertUnitToFit_moves [of unitMap u L "from" i, OF assms(1,3)]
  have d: "distinct ?sfx" and g: "0 < gap L"
    using assms(2) by (simp_all add: wellFormed_def)
  have notin: "?sfx ! i \<notin> set ?ts"
    using distinct_nth_not_before_after [OF d assms(4)] by simp
  have mono: "pow10 (gap L) \<le> pow10 (gap L + 1)"
    by (rule pow10_mono) simp
  have a: "convertUnitToFit n unitMap u from True = Inr r"
    if r: "convertUnitToFit n unitMap u from False = Inr r" and s: "suffix r = Some (?sfx ! i)"
  proof (cases "(1 \<le> \<bar>n\<bar> \<and> \<bar>n\<bar> < pow10 (gap L)) \<or> ?ts = []")
    case True
    then have "(1 \<le> \<bar>n\<bar> \<and> \<bar>n\<bar> < pow10 (if True then gap L + 1 else gap L)) \<or> ?ts = []"
      using mono by auto
    then have "convertUnitToFit n unitMap u from True
                 = Inr \<lparr>number = bankersRound_finite n 1, unit = u, suffix = element ?sfx (int i)\<rparr>"
      by (rule keeps)
    moreover have "convertUnitToFit n unitMap u from False
                 = Inr \<lparr>number = bankersRound_finite n 1, unit = u, suffix = element ?sfx (int i)\<rparr>"
      using True by (intro keeps) simp
    ultimately show ?thesis using r by simp
  next
    case False
    then have "\<exists>r' s'. convertUnitToFit n unitMap u from False
                 = Inr \<lparr>number = r', unit = u, suffix = Some s'\<rparr> \<and> s' \<in> set ?ts"
      by (intro moves) simp_all
    then obtain r' s' where "convertUnitToFit n unitMap u from False
                 = Inr \<lparr>number = r', unit = u, suffix = Some s'\<rparr>" and "s' \<in> set ?ts"
      by blast
    then have "?sfx ! i \<in> set ?ts" using r s by simp
    then show ?thesis using notin by simp
  qed
  have b: "convertUnitToFit n unitMap u from True
                  = Inr \<lparr>number = bankersRound_finite n 1, unit = u, suffix = Some (?sfx ! i)\<rparr>
           \<and> (\<exists>r' j. convertUnitToFit n unitMap u from False = Inr r'
                      \<and> suffix r' = Some (?sfx ! j) \<and> i < j \<and> j < length ?sfx
                      \<and> suffix r' \<noteq> Some (?sfx ! i))"
    if lo: "pow10 (gap L) \<le> \<bar>n\<bar>" and hi: "\<bar>n\<bar> < pow10 (gap L + 1)"
      and more: "Suc i < length ?sfx"
  proof -
    have one: "1 \<le> \<bar>n\<bar>" using pow10_ge1 [of "gap L"] g lo by simp
    have "(1 \<le> \<bar>n\<bar> \<and> \<bar>n\<bar> < pow10 (if True then gap L + 1 else gap L)) \<or> ?ts = []"
      using one hi by simp
    then have "convertUnitToFit n unitMap u from True
                 = Inr \<lparr>number = bankersRound_finite n 1, unit = u, suffix = element ?sfx (int i)\<rparr>"
      by (rule keeps)
    then have keep: "convertUnitToFit n unitMap u from True
                 = Inr \<lparr>number = bankersRound_finite n 1, unit = u, suffix = Some (?sfx ! i)\<rparr>"
      using assms(4) by (simp add: element_in_range)
    have ts: "?ts = drop (Suc i) ?sfx" using one by simp
    have "\<exists>r' s'. convertUnitToFit n unitMap u from False
                 = Inr \<lparr>number = r', unit = u, suffix = Some s'\<rparr> \<and> s' \<in> set ?ts"
      using lo more one by (intro moves) simp_all
    then obtain r' s' where r': "convertUnitToFit n unitMap u from False
                 = Inr \<lparr>number = r', unit = u, suffix = Some s'\<rparr>" and s': "s' \<in> set ?ts"
      by blast
    obtain j where j: "Suc i \<le> j" "j < length ?sfx" "s' = ?sfx ! j"
      using s' ts in_set_drop_nth [of s' "Suc i" ?sfx] by auto
    have "s' \<noteq> ?sfx ! i" using s' notin by auto
    then show ?thesis using keep r' j by auto
  qed
  show ?thesis using a b by blast
qed

theorem offset_widens_window_witness:
  "BASE_UNIT_MAP ''mass'' = Some \<lparr>gap = 3, suffices = [''g'', ''kg'', ''ton''], baseIndex = 1\<rparr>
   \<and> wellFormed \<lparr>gap = 3, suffices = [''g'', ''kg'', ''ton''], baseIndex = 1\<rparr>
   \<and> fromIndexOf [''g'', ''kg'', ''ton''] 1 (Some ''g'') = int 0
   \<and> pow10 3 \<le> \<bar>5000\<bar> \<and> \<bar>5000\<bar> < pow10 (3 + 1)
   \<and> convertUnitToFit 5000 BASE_UNIT_MAP ''mass'' (Some ''g'') True
       = Inr \<lparr>number = 5000, unit = ''mass'', suffix = Some ''g''\<rparr>
   \<and> convertUnitToFit 5000 BASE_UNIT_MAP ''mass'' (Some ''g'') False
       = Inr \<lparr>number = 5, unit = ''mass'', suffix = Some ''kg''\<rparr>
   \<and> convertUnitToFit 500 BASE_UNIT_MAP ''mass'' (Some ''g'') False
       = Inr \<lparr>number = 500, unit = ''mass'', suffix = Some ''g''\<rparr>
   \<and> convertUnitToFit 500 BASE_UNIT_MAP ''mass'' (Some ''g'') True
       = Inr \<lparr>number = 500, unit = ''mass'', suffix = Some ''g''\<rparr>"
proof -
  let ?L = "\<lparr>gap = 3, suffices = [''g'', ''kg'', ''ton''], baseIndex = 1\<rparr>"
  have m: "BASE_UNIT_MAP ''mass'' = Some ?L" by (simp add: BASE_UNIT_MAP_def)
  have w: "wellFormed ?L" by (simp add: wellFormed_def)
  have f: "fromIndexOf (suffices ?L) (baseIndex ?L) (Some ''g'') = int 0"
    by (simp add: fromIndexOf_def)
  have l: "0 < length (suffices ?L)" by simp
  have lo: "pow10 3 \<le> \<bar>5000\<bar>" and hi: "\<bar>5000\<bar> < pow10 (3 + 1)" by code_simp+
  have b5: "bankersRound_finite 5000 1 = 5000" by code_simp
  have no: "convertUnitToFit 5000 BASE_UNIT_MAP ''mass'' (Some ''g'') False
              = Inr \<lparr>number = 5, unit = ''mass'', suffix = Some ''kg''\<rparr>"
    by code_simp
  have n500: "convertUnitToFit 500 BASE_UNIT_MAP ''mass'' (Some ''g'') False
              = Inr \<lparr>number = 500, unit = ''mass'', suffix = Some ''g''\<rparr>"
    by code_simp
  have "convertUnitToFit 5000 BASE_UNIT_MAP ''mass'' (Some ''g'') True
          = Inr \<lparr>number = bankersRound_finite 5000 1, unit = ''mass'',
                 suffix = Some (suffices ?L ! 0)\<rparr>"
    using offset_widens_window [of BASE_UNIT_MAP "''mass''" ?L "Some ''g''" 0 5000, OF m w f l]
      lo hi
    by simp
  then have yes: "convertUnitToFit 5000 BASE_UNIT_MAP ''mass'' (Some ''g'') True
          = Inr \<lparr>number = 5000, unit = ''mass'', suffix = Some ''g''\<rparr>"
    by (simp add: b5)
  have y500: "convertUnitToFit 500 BASE_UNIT_MAP ''mass'' (Some ''g'') True
          = Inr \<lparr>number = 500, unit = ''mass'', suffix = Some ''g''\<rparr>"
    using offset_widens_window
      [of BASE_UNIT_MAP "''mass''" ?L "Some ''g''" 0 500
         "\<lparr>number = 500, unit = ''mass'', suffix = Some ''g''\<rparr>", OF m w f l] n500
    by simp
  show ?thesis using m w f lo hi yes no n500 y500 by simp
qed

section \<open>Properties of the resolution of the starting suffix\<close>

text \<open>
  C10. The empty string as \<open>from\<close> should be read as an omitted \<open>from\<close>. getOptimalUnit
  does so for the starting index (\<open>from ? suffices.indexOf(from) : baseIndex\<close>) but not for
  the starting suffix (\<open>from ?? suffices[baseIndex]\<close>), which stays the empty string. The
  empty array is answered with that starting suffix: for the family \<open>mass\<close> the call with
  an empty \<open>from\<close> returns the empty string, which is no suffix of the ladder, where the
  call without \<open>from\<close> returns the base suffix \<open>kg\<close>. On a non-empty array the starting
  suffix goes through convertUnitToFit, which reads the empty string as the base, as
  convertUnitFromTo does, and the two calls agree.
\<close>

theorem getOptimalUnit_empty_from_empty_numbers:
  "getOptimalUnit [] BASE_UNIT_MAP ''mass'' (Some []) False OptMin = Inr (Some [])
   \<and> getOptimalUnit [] BASE_UNIT_MAP ''mass'' None False OptMin = Inr (Some ''kg'')
   \<and> indexOf [''g'', ''kg'', ''ton''] [] = - 1
   \<and> getOptimalUnit [5000] BASE_UNIT_MAP ''mass'' (Some []) False OptMin = Inr (Some ''ton'')
   \<and> getOptimalUnit [5000] BASE_UNIT_MAP ''mass'' None False OptMin = Inr (Some ''ton'')
   \<and> convertUnitToFit 5000 BASE_UNIT_MAP ''mass'' (Some []) False
     = Inr \<lparr>number = 5, unit = ''mass'', suffix = Some ''ton''\<rparr>
   \<and> convertUnitToFit 5000 BASE_UNIT_MAP ''mass'' None False
     = Inr \<lparr>number = 5, unit = ''mass'', suffix = Some ''ton''\<rparr>
   \<and> convertUnitFromTo 5000 BASE_UNIT_MAP ''mass'' (Some []) ''g''
     = Inr \<lparr>number = 5000000, unit = ''mass'', suffix = Some ''g''\<rparr>
   \<and> convertUnitFromTo 5000 BASE_UNIT_MAP ''mass'' None ''g''
     = Inr \<lparr>number = 5000000, unit = ''mass'', suffix = Some ''g''\<rparr>"
  by code_simp

section \<open>Properties of the optimal-unit selector\<close>

lemma Math_min_Min: "Math_min a as = Min (insert a (set as))"
  using Min.set_eq_fold [of a as] by (simp add: Math_min_def)

lemma Math_max_Max: "Math_max a as = Max (insert a (set as))"
  using Max.set_eq_fold [of a as] by (simp add: Math_max_def)

lemma fromSuffix_resolves:
  assumes "fromIndexOf sfx bi from \<noteq> - 1"
    and "(case from of Some f \<Rightarrow> Some f | None \<Rightarrow> element sfx (int bi)) = Some fromSuffix"
  shows "fromIndexOf sfx bi (Some fromSuffix) \<noteq> - 1"
proof (cases "from")
  case None
  then have "bi < length sfx" and fs: "fromSuffix = sfx ! bi"
    using assms(2) by (auto simp: element_def split: if_splits)
  then have "fromSuffix \<in> set sfx" by simp
  then show ?thesis by (simp add: fromIndexOf_def indexOf_absent)
next
  case (Some f)
  then show ?thesis using assms by simp
qed

lemma convertUnitToFit_returns:
  assumes "unitMap u = Some L"
    and "fromIndexOf (suffices L) (baseIndex L) from \<noteq> - 1"
  shows "\<exists>r. convertUnitToFit n unitMap u from offset = Inr r"
  using assms by (simp add: convertUnitToFit_def Let_def split: option.splits prod.splits)

lemma getOptimalUnit_extremal:
  assumes "numbers \<noteq> []"
    and "unitMap u = Some L"
    and "fromIndexOf (suffices L) (baseIndex L) from \<noteq> - 1"
    and "(case from of Some f \<Rightarrow> Some f | None \<Rightarrow> element (suffices L) (int (baseIndex L)))
           = Some fromSuffix"
  shows "(\<exists>r. convertUnitToFit (Min (abs ` set numbers)) unitMap u (Some fromSuffix) offset = Inr r
            \<and> getOptimalUnit numbers unitMap u from offset OptMin = Inr (suffix r))
       \<and> (\<exists>r. convertUnitToFit (Max (abs ` set numbers)) unitMap u (Some fromSuffix) offset = Inr r
            \<and> getOptimalUnit numbers unitMap u from offset OptMax = Inr (suffix r))"
proof -
  obtain a as where split: "map abs numbers = a # as"
    using assms(1) by (cases numbers) auto
  then have "set (a # as) = abs ` set numbers"
    by (metis list.set_map)
  then have set_eq: "insert a (set as) = abs ` set numbers"
    by simp
  have ok: "fromIndexOf (suffices L) (baseIndex L) (Some fromSuffix) \<noteq> - 1"
    using assms(3,4) by (rule fromSuffix_resolves)
  obtain rmin where rmin:
    "convertUnitToFit (Min (abs ` set numbers)) unitMap u (Some fromSuffix) offset = Inr rmin"
    using convertUnitToFit_returns [of unitMap u L "Some fromSuffix"] assms(2) ok by blast
  obtain rmax where rmax:
    "convertUnitToFit (Max (abs ` set numbers)) unitMap u (Some fromSuffix) offset = Inr rmax"
    using convertUnitToFit_returns [of unitMap u L "Some fromSuffix"] assms(2) ok by blast
  have "getOptimalUnit numbers unitMap u from offset OptMin = Inr (suffix rmin)"
    using assms(2,3,4) split rmin
    by (simp add: getOptimalUnit_def Math_min_Min set_eq)
  moreover have "getOptimalUnit numbers unitMap u from offset OptMax = Inr (suffix rmax)"
    using assms(2,3,4) split rmax
    by (simp add: getOptimalUnit_def Math_max_Max set_eq)
  ultimately show ?thesis using rmin rmax by blast
qed

text \<open>
  C9. For a non-empty array, a family of the map and a \<open>from\<close> that resolves, getOptimalUnit
  under \<open>min\<close> (and under \<open>max\<close>) returns exactly the suffix that convertUnitToFit
  produces, with the same map, family, resolved starting suffix and offset, for the least
  (the greatest) of the absolute values; that conversion does not fail. In particular the
  array \<open>[100, 500000, 1000000]\<close> of grams gives \<open>g\<close> under \<open>min\<close>.
\<close>

theorem getOptimalUnit_min_max:
  "(numbers \<noteq> [] \<and> unitMap u = Some L
      \<and> fromIndexOf (suffices L) (baseIndex L) from \<noteq> - 1
      \<and> (case from of Some f \<Rightarrow> Some f | None \<Rightarrow> element (suffices L) (int (baseIndex L)))
           = Some fromSuffix
    \<longrightarrow> (\<exists>r. convertUnitToFit (Min (abs ` set numbers)) unitMap u (Some fromSuffix) offset = Inr r
            \<and> getOptimalUnit numbers unitMap u from offset OptMin = Inr (suffix r))
       \<and> (\<exists>r. convertUnitToFit (Max (abs ` set numbers)) unitMap u (Some fromSuffix) offset = Inr r
            \<and> getOptimalUnit numbers unitMap u from offset OptMax = Inr (suffix r)))
   \<and> getOptimalUnit [100, 500000, 1000000] BASE_UNIT_MAP ''mass'' (Some ''g'') False OptMin
       = Inr (Some ''g'')"
proof -
  have "getOptimalUnit [100, 500000, 1000000] BASE_UNIT_MAP ''mass'' (Some ''g'') False OptMin
          = Inr (Some ''g'')"
    by code_simp
  then show ?thesis
    using getOptimalUnit_extremal [of numbers unitMap u L "from" fromSuffix offset] by blast
qed

theorem getOptimalUnit_min_max_witness:
  "[100, 500000, 1000000 :: rat] \<noteq> []
   \<and> BASE_UNIT_MAP ''mass'' = Some \<lparr>gap = 3, suffices = [''g'', ''kg'', ''ton''], baseIndex = 1\<rparr>
   \<and> fromIndexOf [''g'', ''kg'', ''ton''] 1 (Some ''g'') \<noteq> - 1
   \<and> Max (abs ` set [100, 500000, 1000000 :: rat]) = 1000000
   \<and> convertUnitToFit 1000000 BASE_UNIT_MAP ''mass'' (Some ''g'') False
       = Inr \<lparr>number = 1, unit = ''mass'', suffix = Some ''ton''\<rparr>
   \<and> getOptimalUnit [100, 500000, 1000000] BASE_UNIT_MAP ''mass'' (Some ''g'') False OptMax
       = Inr (Some ''ton'')"
proof -
  let ?L = "\<lparr>gap = 3, suffices = [''g'', ''kg'', ''ton''], baseIndex = 1\<rparr>"
  have n: "[100, 500000, 1000000 :: rat] \<noteq> []" by simp
  have m: "BASE_UNIT_MAP ''mass'' = Some ?L"
    by (simp add: BASE_UNIT_MAP_def)
  have f: "fromIndexOf [''g'', ''kg'', ''ton''] 1 (Some ''g'') \<noteq> - 1"
    by (simp add: fromIndexOf_def)
  have mx: "Max (abs ` set [100, 500000, 1000000 :: rat]) = 1000000" by simp
  have fit: "convertUnitToFit 1000000 BASE_UNIT_MAP ''mass'' (Some ''g'') False
               = Inr \<lparr>number = 1, unit = ''mass'', suffix = Some ''ton''\<rparr>"
    by code_simp
  have "\<exists>r. convertUnitToFit (Max (abs ` set [100, 500000, 1000000])) BASE_UNIT_MAP ''mass''
               (Some ''g'') False = Inr r
           \<and> getOptimalUnit [100, 500000, 1000000] BASE_UNIT_MAP ''mass'' (Some ''g'') False OptMax
               = Inr (suffix r)"
    using getOptimalUnit_min_max
      [of "[100, 500000, 1000000]" BASE_UNIT_MAP "''mass''" ?L "Some ''g''" "''g''" False]
      n m f
    by simp
  then have "getOptimalUnit [100, 500000, 1000000] BASE_UNIT_MAP ''mass'' (Some ''g'') False OptMax
               = Inr (Some ''ton'')"
    by (simp only: mx fit) simp
  then show ?thesis using n m f mx fit by simp
qed

end
